theory Spec2Isabelle
  imports Main "HOL-Library.Char_ord" "HOL-Library.List_Lexorder"
begin

section \<open>Arc Raiders recipe calculator: the core of flask\_app.py\<close>

text \<open>
  The model follows \<^verbatim>\<open>RecipeCalculator\<close> in \<^verbatim>\<open>src/flask_app.py\<close>.
  A Python \<^verbatim>\<open>dict\<close> that the code iterates over is an association list in
  insertion order (its keys are distinct); the catalog \<^verbatim>\<open>self.items\<close>, which the
  modelled functions only look up, is a map. Quantities are Python integers, hence
  \<^typ>\<open>int\<close>.
\<close>

subsection \<open>Item records\<close>

text \<open>The \<^verbatim>\<open>name\<close> field of an item file is a plain string or a dict from
  language code to string.\<close>

datatype name_data = NameStr string | NameDict "(string \<times> string) list"

type_synonym ingredients = "(string \<times> int) list"

text \<open>One item JSON file. A field that the file does not have is \<open>None\<close>.
  \<^verbatim>\<open>load_items\<close> stores a file only under a truthy \<^verbatim>\<open>id\<close>, so a stored
  dict is never empty and \<^verbatim>\<open>not item\<close> is true exactly for a missing key.\<close>

record item =
  name :: "name_data option"
  type :: "string option"
  rarity :: "string option"
  imageFilename :: "string option"
  recipe :: "ingredients option"
  upgradeCost :: "ingredients option"

type_synonym catalog = "string \<rightharpoonup> item"

text \<open>The default \<^verbatim>\<open>{}\<close> of \<^verbatim>\<open>self.items.get(item_id, {})\<close>.\<close>

definition empty_item :: item where
  "empty_item = \<lparr>name = None, type = None, rarity = None, imageFilename = None,
     recipe = None, upgradeCost = None\<rparr>"

text \<open>\<^verbatim>\<open>'recipe' in item and item['recipe']\<close>: the key is there and its dict is
  not empty.\<close>

definition truthy :: "ingredients option \<Rightarrow> bool" where
  "truthy d = (case d of None \<Rightarrow> False | Some xs \<Rightarrow> xs \<noteq> [])"

subsection \<open>Strings\<close>

text \<open>\<^verbatim>\<open>s.endswith(suf)\<close>.\<close>

definition endswith :: "string \<Rightarrow> string \<Rightarrow> bool" where
  "endswith s suf = (length suf \<le> length s \<and> drop (length s - length suf) s = suf)"

text \<open>\<^verbatim>\<open>s[:-n]\<close> for a positive \<open>n\<close>: all but the last \<open>n\<close> characters, and
  the empty string when \<open>s\<close> is shorter than \<open>n\<close>.\<close>

definition strip_last :: "nat \<Rightarrow> string \<Rightarrow> string" where
  "strip_last n s = take (length s - n) s"

subsection \<open>is\_base\_resource\<close>

definition is_base_resource :: "catalog \<Rightarrow> string \<Rightarrow> bool" where
  "is_base_resource items item_id =
     (case items item_id of
        None \<Rightarrow> True
      | Some item \<Rightarrow>
          (let has_recipe = truthy (recipe item);
               has_upgrade_cost = truthy (upgradeCost item)
           in \<not> (has_recipe \<or> has_upgrade_cost)))"

subsection \<open>get\_previous\_upgrade\_level\<close>

definition upgrade_map :: "(string \<times> string) list" where
  "upgrade_map = [(''_iv'', ''_iii''), (''_iii'', ''_ii''), (''_ii'', ''_i'')]"

text \<open>The \<^verbatim>\<open>for current, previous in upgrade_map.items()\<close> loop, which returns at
  the first suffix that matches and \<^verbatim>\<open>None\<close> after the last.\<close>

fun previous_scan :: "string \<Rightarrow> (string \<times> string) list \<Rightarrow> string option" where
  "previous_scan item_id [] = None"
| "previous_scan item_id ((current, previous) # rest) =
     (if endswith item_id current
      then Some (strip_last (length current) item_id @ previous)
      else previous_scan item_id rest)"

definition get_previous_upgrade_level :: "string \<Rightarrow> string option" where
  "get_previous_upgrade_level item_id = previous_scan item_id upgrade_map"

subsection \<open>get\_direct\_requirements\<close>

text \<open>\<^verbatim>\<open>requirements[k] += v\<close> on a \<^verbatim>\<open>defaultdict(int)\<close>: a key that is
  there keeps its place, a new key starts from 0 and goes last.\<close>

fun add_req :: "string \<Rightarrow> int \<Rightarrow> ingredients \<Rightarrow> ingredients" where
  "add_req k v [] = [(k, 0 + v)]"
| "add_req k v ((k', q) # rest) =
     (if k' = k then (k', q + v) # rest else (k', q) # add_req k v rest)"

text \<open>The inner loop over the \<^verbatim>\<open>.items()\<close> of a recipe or an upgrade cost.\<close>

fun add_ingredients :: "ingredients \<Rightarrow> int \<Rightarrow> ingredients \<Rightarrow> ingredients" where
  "add_ingredients [] quantity requirements = requirements"
| "add_ingredients ((ingredient_id, ingredient_qty) # rest) quantity requirements =
     add_ingredients rest quantity
       (add_req ingredient_id (ingredient_qty * quantity) requirements)"

text \<open>The body of the outer loop for one \<^verbatim>\<open>(item_id, quantity)\<close>.
  \<^verbatim>\<open>if previous_level:\<close> is false for \<^verbatim>\<open>None\<close> and for the empty string.\<close>

definition requirements_step ::
    "catalog \<Rightarrow> ingredients \<Rightarrow> string \<times> int \<Rightarrow> ingredients" where
  "requirements_step items requirements sel =
     (case sel of (item_id, quantity) \<Rightarrow>
        (case items item_id of
           None \<Rightarrow> requirements
         | Some item \<Rightarrow>
             if truthy (upgradeCost item) then
               (let requirements' =
                      (case upgradeCost item of
                         None \<Rightarrow> requirements
                       | Some cost \<Rightarrow> add_ingredients cost quantity requirements)
                in case get_previous_upgrade_level item_id of
                     None \<Rightarrow> requirements'
                   | Some previous_level \<Rightarrow>
                       if previous_level = [] then requirements'
                       else add_req previous_level quantity requirements')
             else if truthy (recipe item) then
               (case recipe item of
                  None \<Rightarrow> requirements
                | Some rec \<Rightarrow> add_ingredients rec quantity requirements)
             else requirements))"

fun requirements_loop ::
    "catalog \<Rightarrow> (string \<times> int) list \<Rightarrow> ingredients \<Rightarrow> ingredients" where
  "requirements_loop items [] requirements = requirements"
| "requirements_loop items (sel # rest) requirements =
     requirements_loop items rest (requirements_step items requirements sel)"

definition get_direct_requirements ::
    "catalog \<Rightarrow> (string \<times> int) list \<Rightarrow> ingredients" where
  "get_direct_requirements items selected_items = requirements_loop items selected_items []"

subsection \<open>get\_weapon\_upgrade\_info\<close>

text \<open>The returned dict: \<^verbatim>\<open>{'is_weapon_upgrade': False}\<close>, or the four keys of
  an upgrade, where \<^verbatim>\<open>previous_level\<close> may hold \<^verbatim>\<open>None\<close>.\<close>

datatype weapon_info =
    NotUpgrade
  | Upgrade (base_name: string) (upgrade_level: string) (previous_level: "string option")

fun is_weapon_upgrade :: "weapon_info \<Rightarrow> bool" where
  "is_weapon_upgrade NotUpgrade = False"
| "is_weapon_upgrade (Upgrade b l p) = True"

definition upgrade_levels :: "(string \<times> string) list" where
  "upgrade_levels = [(''_i'', ''I''), (''_ii'', ''II''), (''_iii'', ''III''), (''_iv'', ''IV'')]"

fun level_scan :: "string \<Rightarrow> (string \<times> string) list \<Rightarrow> weapon_info" where
  "level_scan item_id [] = NotUpgrade"
| "level_scan item_id ((suffix, roman) # rest) =
     (if endswith item_id suffix
      then Upgrade (strip_last (length suffix) item_id) roman
             (if suffix \<noteq> ''_i'' then Some roman else None)
      else level_scan item_id rest)"

definition get_weapon_upgrade_info :: "string \<Rightarrow> bool \<Rightarrow> weapon_info" where
  "get_weapon_upgrade_info item_id is_weapon =
     (if \<not> is_weapon then NotUpgrade else level_scan item_id upgrade_levels)"

subsection \<open>get\_item\_info\<close>

text \<open>The display dict. The three overlay keys \<^verbatim>\<open>weapon_upgrade\<close>,
  \<^verbatim>\<open>upgrade_level\<close> and \<^verbatim>\<open>required_level\<close> are set together or not at
  all: \<open>info_overlay\<close> holds the last two when they are set. Python's \<^verbatim>\<open>and\<close>
  reads \<^verbatim>\<open>upgrade_level\<close> only from an upgrade's dict, hence the nested test.\<close>

record item_info =
  info_id :: string
  info_name :: string
  info_image :: string
  info_rarity :: string
  info_type :: string
  info_overlay :: "(string \<times> string) option"

definition level_map :: "(string \<times> string) list" where
  "level_map = [(''II'', ''I''), (''III'', ''II''), (''IV'', ''III'')]"

definition item_type :: "item \<Rightarrow> string" where
  "item_type item = (case type item of None \<Rightarrow> ''Unknown'' | Some t \<Rightarrow> t)"

definition image_path :: "item \<Rightarrow> weapon_info \<Rightarrow> string \<Rightarrow> string" where
  "image_path item weapon_info item_id =
     (let imageFilename = (case imageFilename item of None \<Rightarrow> [] | Some f \<Rightarrow> f)
      in if length imageFilename \<noteq> 0 then ''static/images/'' @ imageFilename
         else if is_weapon_upgrade weapon_info
              then ''static/images/'' @ base_name weapon_info @ ''.png''
              else ''static/images/'' @ item_id @ ''.png'')"

definition display_name :: "item \<Rightarrow> string \<Rightarrow> string" where
  "display_name item item_id =
     (case name item of
        None \<Rightarrow> item_id
      | Some (NameDict d) \<Rightarrow> (case map_of d ''en'' of None \<Rightarrow> item_id | Some n \<Rightarrow> n)
      | Some (NameStr s) \<Rightarrow> s)"

definition get_item_info :: "catalog \<Rightarrow> string \<Rightarrow> item_info" where
  "get_item_info items item_id =
     (let item = (case items item_id of None \<Rightarrow> empty_item | Some it \<Rightarrow> it);
          weapon_info = get_weapon_upgrade_info item_id (item_type item \<noteq> ''Modification'')
      in \<lparr>info_id = item_id,
          info_name = display_name item item_id,
          info_image = image_path item weapon_info item_id,
          info_rarity = (case rarity item of None \<Rightarrow> ''Common'' | Some r \<Rightarrow> r),
          info_type = item_type item,
          info_overlay =
            (if is_weapon_upgrade weapon_info
             then (if upgrade_level weapon_info \<noteq> ''I''
                   then Some (upgrade_level weapon_info,
                              (case map_of level_map (upgrade_level weapon_info) of
                                 None \<Rightarrow> ''I'' | Some l \<Rightarrow> l))
                   else None)
             else None)\<rparr>)"

subsection \<open>The single-item endpoint expand\_item\<close>

text \<open>The JSON body of \<^verbatim>\<open>POST /api/expand\<close>: both keys are read with
  \<^verbatim>\<open>data.get\<close>, so either may be missing.\<close>

record expand_request =
  req_item_id :: "string option"
  req_quantity :: "int option"

text \<open>One element of the returned array: the display dict with \<^verbatim>\<open>quantity\<close> and
  \<^verbatim>\<open>can_expand\<close> added.\<close>

record line = item_info +
  quantity :: int
  can_expand :: bool

text \<open>The response: the body \<^verbatim>\<open>{'error': ...}\<close> with status 400, or the array
  with status 200.\<close>

datatype response = Error400 string | Ok200 "line list"

definition requirement_line :: "catalog \<Rightarrow> string \<times> int \<Rightarrow> line" where
  "requirement_line items req =
     (case req of (req_id, req_qty) \<Rightarrow>
        item_info.extend (get_item_info items req_id)
          (line.fields req_qty (\<not> is_base_resource items req_id)))"

definition expand_item :: "catalog \<Rightarrow> expand_request \<Rightarrow> response" where
  "expand_item items data =
     (let item_id = req_item_id data;
          quantity = (case req_quantity data of None \<Rightarrow> 1 | Some q \<Rightarrow> q)
      in case item_id of
           None \<Rightarrow> Error400 ''item_id required''
         | Some i \<Rightarrow>
             if i = [] then Error400 ''item_id required''
             else
               (let requirements = get_direct_requirements items [(i, quantity)]
                in Ok200 (map (requirement_line items)
                     (sort_key (\<lambda>x. info_name (get_item_info items (fst x))) requirements))))"

subsection \<open>Reading a requirements dict; example catalogs\<close>

text \<open>The quantity a dict holds for a key, and 0 for a key it does not have (what reading
  \<^verbatim>\<open>requirements[k]\<close> from the \<^verbatim>\<open>defaultdict(int)\<close> gives).\<close>

definition qty_of :: "ingredients \<Rightarrow> string \<Rightarrow> int" where
  "qty_of d k = (case map_of d k of None \<Rightarrow> 0 | Some v \<Rightarrow> v)"

text \<open>The catalog of the end-to-end scenario: wood is a base resource, a plank takes two
  wood, a table takes four planks.\<close>

definition wood_catalog :: catalog where
  "wood_catalog =
     [''wood'' \<mapsto> empty_item,
      ''plank'' \<mapsto> empty_item\<lparr>recipe := Some [(''wood'', 2)]\<rparr>,
      ''table'' \<mapsto> empty_item\<lparr>recipe := Some [(''plank'', 4)]\<rparr>]"

text \<open>A tier-III weapon whose file has both an upgrade cost and a recipe.\<close>

definition weapon_catalog :: catalog where
  "weapon_catalog =
     [''weapon_iii'' \<mapsto>
        empty_item\<lparr>recipe := Some [(''scrap'', 5)],
                   upgradeCost := Some [(''mat_a'', 3), (''mat_b'', 1)]\<rparr>]"

text \<open>Two craftable items that both take two wood.\<close>

definition shared_catalog :: catalog where
  "shared_catalog =
     [''a'' \<mapsto> empty_item\<lparr>recipe := Some [(''wood'', 2), (''nail'', 1)]\<rparr>,
      ''b'' \<mapsto> empty_item\<lparr>recipe := Some [(''glue'', 3), (''wood'', 2)]\<rparr>]"

text \<open>Items for the display record: a name as a dict and as a string, an image file name
  that is set, empty and missing, and a Modification whose identifier ends in a tier suffix.\<close>

definition display_catalog :: catalog where
  "display_catalog =
     [''rifle'' \<mapsto> empty_item\<lparr>name := Some (NameDict [(''en'', ''Rifle''), (''fr'', ''Fusil'')]),
                               type := Some ''Weapon'',
                               imageFilename := Some ''rifle_art.png''\<rparr>,
      ''rifle_ii'' \<mapsto> empty_item\<lparr>name := Some (NameStr ''Rifle''),
                                  type := Some ''Weapon'',
                                  imageFilename := Some ''''\<rparr>,
      ''scope_ii'' \<mapsto> empty_item\<lparr>name := Some (NameDict [(''fr'', ''Lunette'')]),
                                  type := Some ''Modification''\<rparr>,
      ''plank'' \<mapsto> empty_item]"

section \<open>Properties\<close>

subsection \<open>Suffixes, and the requirements dict\<close>

lemma endswith_iff: "endswith s suf \<longleftrightarrow> (\<exists>b. s = b @ suf)"
proof
  assume "endswith s suf"
  then have "drop (length s - length suf) s = suf"
    by (simp add: endswith_def)
  then have "s = take (length s - length suf) s @ suf"
    using append_take_drop_id [of "length s - length suf" s] by simp
  then show "\<exists>b. s = b @ suf" ..
next
  assume "\<exists>b. s = b @ suf"
  then show "endswith s suf" by (auto simp: endswith_def)
qed

lemma qty_of_Nil: "qty_of [] k = 0"
  by (simp add: qty_of_def)

lemma qty_of_Cons: "qty_of ((i, n) # d) k = (if k = i then n else qty_of d k)"
  by (simp add: qty_of_def)

lemma map_fst_add_req:
  "map fst (add_req k v reqs) =
     (if k \<in> fst ` set reqs then map fst reqs else map fst reqs @ [k])"
proof (induction reqs)
  case Nil
  show ?case by simp
next
  case (Cons p reqs)
  obtain k' q where p: "p = (k', q)" by (cases p)
  show ?case
  proof (cases "k' = k")
    case True
    then show ?thesis unfolding p by simp
  next
    case False
    then show ?thesis unfolding p using Cons.IH by simp
  qed
qed

lemma keys_add_req: "fst ` set (add_req k v reqs) = insert k (fst ` set reqs)"
proof -
  have "set (map fst (add_req k v reqs)) = insert k (fst ` set reqs)"
    unfolding map_fst_add_req by auto
  then show ?thesis by simp
qed

lemma distinct_add_req:
  "distinct (map fst (add_req k v reqs)) = distinct (map fst reqs)"
  unfolding map_fst_add_req by simp

lemma qty_of_add_req:
  "qty_of (add_req k v reqs) k' = qty_of reqs k' + (if k' = k then v else 0)"
proof (induction reqs)
  case Nil
  show ?case by (simp add: qty_of_Nil qty_of_Cons)
next
  case (Cons p reqs)
  obtain i n where p: "p = (i, n)" by (cases p)
  show ?case unfolding p using Cons.IH
    by (cases "k' = k") (simp_all add: qty_of_Cons)
qed

lemma add_req_fresh: "k \<notin> fst ` set reqs \<Longrightarrow> add_req k v reqs = reqs @ [(k, v)]"
proof (induction reqs)
  case Nil
  show ?case by simp
next
  case (Cons p reqs)
  obtain k' q where p: "p = (k', q)" by (cases p)
  from Cons.prems have "k' \<noteq> k" and "k \<notin> fst ` set reqs"
    unfolding p by auto
  with Cons.IH show ?case unfolding p by simp
qed

lemma keys_add_ingredients:
  "fst ` set (add_ingredients ings q reqs) = fst ` set reqs \<union> fst ` set ings"
proof (induction ings arbitrary: reqs)
  case Nil
  show ?case by simp
next
  case (Cons p ings)
  obtain i n where p: "p = (i, n)" by (cases p)
  show ?case unfolding p by (simp add: Cons.IH keys_add_req)
qed

lemma distinct_add_ingredients:
  "distinct (map fst (add_ingredients ings q reqs)) = distinct (map fst reqs)"
proof (induction ings arbitrary: reqs)
  case Nil
  show ?case by simp
next
  case (Cons p ings)
  obtain i n where p: "p = (i, n)" by (cases p)
  show ?case unfolding p by (simp add: Cons.IH distinct_add_req)
qed

lemma qty_of_add_ingredients_acc:
  "qty_of (add_ingredients ings q reqs) k = qty_of reqs k + qty_of (add_ingredients ings q []) k"
proof (induction ings arbitrary: reqs)
  case Nil
  show ?case by (simp add: qty_of_Nil)
next
  case (Cons p ings)
  obtain i n where p: "p = (i, n)" by (cases p)
  let ?c = "qty_of (add_ingredients ings q []) k"
  have "qty_of (add_ingredients (p # ings) q reqs) k = qty_of (add_req i (n * q) reqs) k + ?c"
    unfolding p add_ingredients.simps by (rule Cons.IH)
  also have "\<dots> = qty_of reqs k + (qty_of (add_req i (n * q) []) k + ?c)"
    by (simp only: qty_of_add_req qty_of_Nil)
  also have "qty_of (add_req i (n * q) []) k + ?c = qty_of (add_ingredients (p # ings) q []) k"
    unfolding p add_ingredients.simps by (rule Cons.IH [symmetric])
  finally show ?case .
qed

lemma add_ingredients_fresh:
  "distinct (map fst ings) \<Longrightarrow> fst ` set ings \<inter> fst ` set reqs = {} \<Longrightarrow>
   add_ingredients ings q reqs = reqs @ map (\<lambda>(k, n). (k, n * q)) ings"
proof (induction ings arbitrary: reqs)
  case Nil
  show ?case by simp
next
  case (Cons p ings)
  obtain i n where p: "p = (i, n)" by (cases p)
  from Cons.prems have fresh: "i \<notin> fst ` set reqs" and d: "distinct (map fst ings)"
    and i: "i \<notin> fst ` set ings" and disj: "fst ` set ings \<inter> fst ` set reqs = {}"
    unfolding p by auto
  have "fst ` set ings \<inter> fst ` set (add_req i (n * q) reqs) = {}"
    unfolding keys_add_req using i disj by simp
  from Cons.IH [OF d this] show ?case
    unfolding p by (simp add: add_req_fresh [OF fresh])
qed

lemma qty_of_scaled:
  "qty_of (map (\<lambda>(k, n). (k, n * q)) ings) k = qty_of ings k * q"
proof (induction ings)
  case Nil
  show ?case by (simp add: qty_of_Nil)
next
  case (Cons p ings)
  obtain i n where p: "p = (i, n)" by (cases p)
  show ?case unfolding p by (simp add: qty_of_Cons Cons.IH)
qed

lemma add_ingredients_scaled:
  "distinct (map fst ings) \<Longrightarrow> add_ingredients ings q [] = map (\<lambda>(k, n). (k, n * q)) ings"
  using add_ingredients_fresh [of ings "[]" q] by simp

lemma qty_of_add_ingredients:
  assumes "distinct (map fst ings)"
  shows "qty_of (add_ingredients ings q reqs) k = qty_of reqs k + qty_of ings k * q"
  using qty_of_add_ingredients_acc [of ings q reqs k]
  by (simp add: add_ingredients_scaled [OF assms] qty_of_scaled)

subsection \<open>One step and the loop of get\_direct\_requirements\<close>

lemma previous_ii: "get_previous_upgrade_level (b @ ''_ii'') = Some (b @ ''_i'')"
  by (simp add: get_previous_upgrade_level_def upgrade_map_def endswith_def strip_last_def)

lemma previous_iii: "get_previous_upgrade_level (b @ ''_iii'') = Some (b @ ''_ii'')"
  by (simp add: get_previous_upgrade_level_def upgrade_map_def endswith_def strip_last_def)

lemma previous_iv: "get_previous_upgrade_level (b @ ''_iv'') = Some (b @ ''_iii'')"
  by (simp add: get_previous_upgrade_level_def upgrade_map_def endswith_def strip_last_def)

lemma previous_None_iff:
  "get_previous_upgrade_level s = None \<longleftrightarrow>
     \<not> endswith s ''_iv'' \<and> \<not> endswith s ''_iii'' \<and> \<not> endswith s ''_ii''"
  by (simp add: get_previous_upgrade_level_def upgrade_map_def)

lemma previous_not_empty: "get_previous_upgrade_level s \<noteq> Some []"
  by (simp add: get_previous_upgrade_level_def upgrade_map_def)

lemma step_unknown: "items item_id = None \<Longrightarrow> requirements_step items reqs (item_id, q) = reqs"
  by (simp add: requirements_step_def)

lemma step_upgrade:
  assumes "items item_id = Some item" "upgradeCost item = Some cost" "cost \<noteq> []"
  shows "requirements_step items reqs (item_id, q) =
           (case get_previous_upgrade_level item_id of
              None \<Rightarrow> add_ingredients cost q reqs
            | Some p \<Rightarrow> add_req p q (add_ingredients cost q reqs))"
  using assms previous_not_empty [of item_id]
  by (auto simp: requirements_step_def truthy_def Let_def split: option.splits)

lemma step_recipe:
  assumes "items item_id = Some item" "\<not> truthy (upgradeCost item)"
    "recipe item = Some rc" "rc \<noteq> []"
  shows "requirements_step items reqs (item_id, q) = add_ingredients rc q reqs"
  using assms by (simp add: requirements_step_def truthy_def)

lemma step_base:
  assumes "items item_id = Some item" "\<not> truthy (upgradeCost item)" "\<not> truthy (recipe item)"
  shows "requirements_step items reqs (item_id, q) = reqs"
  using assms by (simp add: requirements_step_def)

lemma step_shape:
  obtains (skip) "\<And>reqs. requirements_step items reqs e = reqs"
  | (ings) c q where "\<And>reqs. requirements_step items reqs e = add_ingredients c q reqs"
  | (up) c q p where
      "\<And>reqs. requirements_step items reqs e = add_req p q (add_ingredients c q reqs)"
proof -
  obtain item_id q where e: "e = (item_id, q)" by (cases e)
  show thesis
  proof (cases "items item_id")
    case None
    then show thesis using skip step_unknown unfolding e by simp
  next
    case (Some item)
    then have it: "items item_id = Some item" .
    show thesis
    proof (cases "truthy (upgradeCost item)")
      case True
      then obtain cost where c: "upgradeCost item = Some cost" "cost \<noteq> []"
        by (auto simp: truthy_def split: option.splits)
      show thesis
      proof (cases "get_previous_upgrade_level item_id")
        case None
        then show thesis
          using ings [of cost q] step_upgrade [of items item_id item cost, OF it c]
          unfolding e by simp
      next
        case (Some p)
        then show thesis
          using up [of p q cost] step_upgrade [of items item_id item cost, OF it c]
          unfolding e by simp
      qed
    next
      case False
      show thesis
      proof (cases "truthy (recipe item)")
        case True
        then obtain rc where c: "recipe item = Some rc" "rc \<noteq> []"
          by (auto simp: truthy_def split: option.splits)
        show thesis
          using ings [of rc q] step_recipe [of items item_id item rc, OF it False c]
          unfolding e by simp
      next
        case nr: False
        show thesis
          using skip step_base [of items item_id item, OF it False nr] unfolding e by simp
      qed
    qed
  qed
qed

lemma qty_of_step_acc:
  "qty_of (requirements_step items reqs e) k =
     qty_of reqs k + qty_of (requirements_step items [] e) k"
proof (cases rule: step_shape [of items e])
  case skip
  then show ?thesis by (simp add: qty_of_Nil)
next
  case (ings c q)
  then show ?thesis using qty_of_add_ingredients_acc [of c q reqs k] by simp
next
  case (up c q p)
  then show ?thesis
    using qty_of_add_ingredients_acc [of c q reqs k]
    by (simp add: qty_of_add_req del: add_req.simps)
qed

lemma keys_step_acc:
  "fst ` set (requirements_step items reqs e) =
     fst ` set reqs \<union> fst ` set (requirements_step items [] e)"
proof (cases rule: step_shape [of items e])
  case skip
  then show ?thesis by simp
next
  case (ings c q)
  then show ?thesis by (simp add: keys_add_ingredients)
next
  case (up c q p)
  then show ?thesis by (simp add: keys_add_ingredients keys_add_req del: add_req.simps)
qed

lemma distinct_step:
  "distinct (map fst (requirements_step items reqs e)) = distinct (map fst reqs)"
proof (cases rule: step_shape [of items e])
  case skip
  then show ?thesis by simp
next
  case (ings c q)
  then show ?thesis by (simp add: distinct_add_ingredients)
next
  case (up c q p)
  then show ?thesis by (simp add: distinct_add_ingredients distinct_add_req del: add_req.simps)
qed

lemma loop_append:
  "requirements_loop items (a @ b) reqs = requirements_loop items b (requirements_loop items a reqs)"
  by (induction a arbitrary: reqs) simp_all

lemma qty_of_loop_acc:
  "qty_of (requirements_loop items sel reqs) k =
     qty_of reqs k + qty_of (requirements_loop items sel []) k"
proof (induction sel arbitrary: reqs)
  case Nil
  show ?case by (simp add: qty_of_Nil)
next
  case (Cons e sel)
  let ?c = "qty_of (requirements_loop items sel []) k"
  have "qty_of (requirements_loop items (e # sel) reqs) k
      = qty_of (requirements_step items reqs e) k + ?c"
    unfolding requirements_loop.simps by (rule Cons.IH)
  also have "\<dots> = qty_of reqs k + (qty_of (requirements_step items [] e) k + ?c)"
    using qty_of_step_acc [of items reqs e k] by simp
  also have "qty_of (requirements_step items [] e) k + ?c
      = qty_of (requirements_loop items (e # sel) []) k"
    unfolding requirements_loop.simps by (rule Cons.IH [symmetric])
  finally show ?case .
qed

lemma keys_loop_acc:
  "fst ` set (requirements_loop items sel reqs) =
     fst ` set reqs \<union> fst ` set (requirements_loop items sel [])"
proof (induction sel arbitrary: reqs)
  case Nil
  show ?case by simp
next
  case (Cons e sel)
  let ?c = "fst ` set (requirements_loop items sel [])"
  have "fst ` set (requirements_loop items (e # sel) reqs)
      = fst ` set (requirements_step items reqs e) \<union> ?c"
    unfolding requirements_loop.simps by (rule Cons.IH)
  also have "\<dots> = fst ` set reqs \<union> (fst ` set (requirements_step items [] e) \<union> ?c)"
    using keys_step_acc [of items reqs e] by auto
  also have "fst ` set (requirements_step items [] e) \<union> ?c
      = fst ` set (requirements_loop items (e # sel) [])"
    unfolding requirements_loop.simps by (rule Cons.IH [symmetric])
  finally show ?case .
qed

lemma distinct_loop:
  "distinct (map fst (requirements_loop items sel reqs)) = distinct (map fst reqs)"
  by (induction sel arbitrary: reqs) (simp_all add: distinct_step)

lemma qty_of_requirements_append:
  "qty_of (get_direct_requirements items (a @ b)) k =
     qty_of (get_direct_requirements items a) k + qty_of (get_direct_requirements items b) k"
  unfolding get_direct_requirements_def loop_append by (rule qty_of_loop_acc)

lemma keys_requirements_append:
  "fst ` set (get_direct_requirements items (a @ b)) =
     fst ` set (get_direct_requirements items a) \<union> fst ` set (get_direct_requirements items b)"
  unfolding get_direct_requirements_def loop_append by (rule keys_loop_acc)

lemma distinct_requirements: "distinct (map fst (get_direct_requirements items sel))"
  by (simp add: get_direct_requirements_def distinct_loop)

lemma requirements_single:
  "get_direct_requirements items [e] = requirements_step items [] e"
  by (simp add: get_direct_requirements_def)

subsection \<open>Unknown identifiers and the tier resolver\<close>

text \<open>The definitions that evaluating a concrete selection unfolds.\<close>

lemmas eval_defs =
  get_direct_requirements_def requirements_step_def truthy_def empty_item_def
  get_previous_upgrade_level_def upgrade_map_def endswith_def strip_last_def

text \<open>
  \<^bold>\<open>C4.\<close> An item identifier that the catalog does not have is a base resource, and
  selecting it adds no entry: alone it expands to the empty dict, and inside a larger
  selection the result is that of the selection without it. Both functions return a
  plain value on this path; neither has a branch that raises.
\<close>

theorem unknown_item_is_base:
  assumes "items item_id = None"
  shows "is_base_resource items item_id \<and>
         get_direct_requirements items [(item_id, n)] = [] \<and>
         get_direct_requirements items (before @ (item_id, n) # after) =
           get_direct_requirements items (before @ after)"
  using assms
  by (simp add: is_base_resource_def get_direct_requirements_def loop_append step_unknown)

theorem unknown_item_is_base_witness:
  "is_base_resource wood_catalog ''unobtainium'' \<and>
   get_direct_requirements wood_catalog [(''unobtainium'', 3)] = [] \<and>
   get_direct_requirements wood_catalog [(''table'', 1), (''unobtainium'', 3), (''plank'', 1)] =
     [(''plank'', 4), (''wood'', 2)]"
  using unknown_item_is_base [of wood_catalog "''unobtainium''" 3 "[(''table'', 1)]" "[(''plank'', 1)]"]
  by (simp add: wood_catalog_def eval_defs)

text \<open>
  \<^bold>\<open>C6.\<close> \<^verbatim>\<open>get_previous_upgrade_level\<close> replaces a final \<^verbatim>\<open>_ii\<close>,
  \<^verbatim>\<open>_iii\<close> or \<^verbatim>\<open>_iv\<close> by \<^verbatim>\<open>_i\<close>, \<^verbatim>\<open>_ii\<close> or \<^verbatim>\<open>_iii\<close>,
  and returns \<^verbatim>\<open>None\<close> exactly for the identifiers that end in none of the three;
  so \<^verbatim>\<open>rifle_iv\<close> gives \<^verbatim>\<open>rifle_iii\<close>, and \<^verbatim>\<open>rifle_i\<close> and
  \<^verbatim>\<open>rifle\<close> give \<^verbatim>\<open>None\<close>.
\<close>

theorem previous_tier_identifier:
  "get_previous_upgrade_level (b @ ''_ii'') = Some (b @ ''_i'') \<and>
   get_previous_upgrade_level (b @ ''_iii'') = Some (b @ ''_ii'') \<and>
   get_previous_upgrade_level (b @ ''_iv'') = Some (b @ ''_iii'') \<and>
   (get_previous_upgrade_level s = None \<longleftrightarrow>
      (\<nexists>base. s = base @ ''_ii'' \<or> s = base @ ''_iii'' \<or> s = base @ ''_iv'')) \<and>
   get_previous_upgrade_level ''rifle_iv'' = Some ''rifle_iii'' \<and>
   get_previous_upgrade_level ''rifle_i'' = None \<and>
   get_previous_upgrade_level ''rifle'' = None"
proof -
  have "get_previous_upgrade_level s = None \<longleftrightarrow>
      (\<nexists>base. s = base @ ''_ii'' \<or> s = base @ ''_iii'' \<or> s = base @ ''_iv'')"
    unfolding previous_None_iff endswith_iff by blast
  moreover have "get_previous_upgrade_level ''rifle_iv'' = Some ''rifle_iii''"
    using previous_iv [of "''rifle''"] by simp
  moreover have "get_previous_upgrade_level ''rifle_i'' = None"
    by (simp add: eval_defs)
  moreover have "get_previous_upgrade_level ''rifle'' = None"
    by (simp add: eval_defs)
  ultimately show ?thesis
    using previous_ii [of b] previous_iii [of b] previous_iv [of b] by simp
qed

lemma info_ii: "get_weapon_upgrade_info (b @ ''_ii'') True = Upgrade b ''II'' (Some ''II'')"
  by (simp add: get_weapon_upgrade_info_def upgrade_levels_def endswith_def strip_last_def)

lemma info_i: "get_weapon_upgrade_info (b @ ''_i'') True = Upgrade b ''I'' None"
  by (simp add: get_weapon_upgrade_info_def upgrade_levels_def endswith_def strip_last_def)

lemma info_iii: "get_weapon_upgrade_info (b @ ''_iii'') True = Upgrade b ''III'' (Some ''III'')"
  by (simp add: get_weapon_upgrade_info_def upgrade_levels_def endswith_def strip_last_def)

lemma info_iv: "get_weapon_upgrade_info (b @ ''_iv'') True = Upgrade b ''IV'' (Some ''IV'')"
  by (simp add: get_weapon_upgrade_info_def upgrade_levels_def endswith_def strip_last_def)

lemma info_not_weapon: "get_weapon_upgrade_info s False = NotUpgrade"
  by (simp add: get_weapon_upgrade_info_def)

lemma info_NotUpgrade_iff:
  "get_weapon_upgrade_info s True = NotUpgrade \<longleftrightarrow>
     (\<nexists>base suffix. s = base @ suffix \<and> suffix \<in> {''_i'', ''_ii'', ''_iii'', ''_iv''})"
proof -
  have "get_weapon_upgrade_info s True = NotUpgrade \<longleftrightarrow>
     \<not> endswith s ''_i'' \<and> \<not> endswith s ''_ii'' \<and> \<not> endswith s ''_iii'' \<and> \<not> endswith s ''_iv''"
    by (simp add: get_weapon_upgrade_info_def upgrade_levels_def)
  then show ?thesis unfolding endswith_iff by blast
qed

text \<open>
  \<^bold>\<open>C5.\<close> What \<^verbatim>\<open>get_weapon_upgrade_info\<close> returns: no upgrade when
  \<^verbatim>\<open>is_weapon\<close> is false; for an identifier ending in a tier suffix the base
  identifier and the tier's own numeral. Under \<^verbatim>\<open>previous_level\<close> it stores
  \<^verbatim>\<open>None\<close> for tier I and, for the higher tiers, the tier's own numeral again:
  \<^verbatim>\<open>rifle_iii\<close> gets \<^verbatim>\<open>III\<close>, not the previous tier's \<^verbatim>\<open>II\<close>.
  \<^verbatim>\<open>get_item_info\<close> does reach \<^verbatim>\<open>II\<close> for the same identifier, through its
  own \<^verbatim>\<open>level_map\<close>.
\<close>

theorem tier_info_previous_level:
  "get_weapon_upgrade_info s False = NotUpgrade \<and>
   get_weapon_upgrade_info (b @ ''_i'') True = Upgrade b ''I'' None \<and>
   get_weapon_upgrade_info (b @ ''_ii'') True = Upgrade b ''II'' (Some ''II'') \<and>
   get_weapon_upgrade_info (b @ ''_iii'') True = Upgrade b ''III'' (Some ''III'') \<and>
   get_weapon_upgrade_info (b @ ''_iv'') True = Upgrade b ''IV'' (Some ''IV'') \<and>
   get_weapon_upgrade_info ''rifle_iii'' True = Upgrade ''rifle'' ''III'' (Some ''III'') \<and>
   previous_level (get_weapon_upgrade_info ''rifle_iii'' True) \<noteq> Some ''II'' \<and>
   info_overlay (get_item_info Map.empty ''rifle_iii'') = Some (''III'', ''II'')"
proof -
  have "get_weapon_upgrade_info ''rifle_iii'' True = Upgrade ''rifle'' ''III'' (Some ''III'')"
    using info_iii [of "''rifle''"] by simp
  moreover have "info_overlay (get_item_info Map.empty ''rifle_iii'') = Some (''III'', ''II'')"
    using info_iii [of "''rifle''"]
    by (simp add: get_item_info_def item_type_def empty_item_def level_map_def Let_def)
  ultimately show ?thesis
    using info_not_weapon [of s] info_i [of b] info_ii [of b] info_iii [of b] info_iv [of b]
    by simp
qed

subsection \<open>Expansion by upgrade cost\<close>

lemma step_recipe_irrelevant:
  assumes "items item_id = Some item" "truthy (upgradeCost item)"
  shows "requirements_step (items(item_id \<mapsto> item\<lparr>recipe := r\<rparr>)) reqs e =
         requirements_step items reqs e"
proof -
  obtain i q where e: "e = (i, q)" by (cases e)
  show ?thesis
  proof (cases "i = item_id")
    case True
    then show ?thesis using assms unfolding e by (simp add: requirements_step_def)
  next
    case False
    then show ?thesis unfolding e by (simp add: requirements_step_def)
  qed
qed

lemma loop_recipe_irrelevant:
  assumes "items item_id = Some item" "truthy (upgradeCost item)"
  shows "requirements_loop (items(item_id \<mapsto> item\<lparr>recipe := r\<rparr>)) sel reqs =
         requirements_loop items sel reqs"
  by (induction sel arbitrary: reqs)
    (simp_all add: step_recipe_irrelevant [of items item_id item, OF assms])

lemma upgrade_single:
  assumes "items item_id = Some item" "upgradeCost item = Some cost" "cost \<noteq> []"
  shows "get_direct_requirements items [(item_id, qty)] =
           (case get_previous_upgrade_level item_id of
              None \<Rightarrow> add_ingredients cost qty []
            | Some p \<Rightarrow> add_req p qty (add_ingredients cost qty []))"
  unfolding requirements_single
  by (rule step_upgrade [of items item_id item cost, OF assms])

lemma upgrade_single_qty:
  assumes "items item_id = Some item" "upgradeCost item = Some cost" "cost \<noteq> []"
    "distinct (map fst cost)"
  shows "qty_of (get_direct_requirements items [(item_id, qty)]) k =
           qty_of cost k * qty + (if get_previous_upgrade_level item_id = Some k then qty else 0)"
proof (cases "get_previous_upgrade_level item_id")
  case None
  then show ?thesis
    using upgrade_single [of items item_id item cost qty, OF assms(1-3)]
    by (simp add: qty_of_add_ingredients [OF assms(4)] qty_of_Nil)
next
  case (Some p)
  then show ?thesis
    using upgrade_single [of items item_id item cost qty, OF assms(1-3)]
    by (auto simp add: qty_of_add_req qty_of_add_ingredients [OF assms(4)] qty_of_Nil
          simp del: add_req.simps)
qed

lemma upgrade_single_keys:
  assumes "items item_id = Some item" "upgradeCost item = Some cost" "cost \<noteq> []"
  shows "fst ` set (get_direct_requirements items [(item_id, qty)]) =
           fst ` set cost \<union> set_option (get_previous_upgrade_level item_id)"
proof (cases "get_previous_upgrade_level item_id")
  case None
  then show ?thesis
    using upgrade_single [of items item_id item cost qty, OF assms]
    by (simp add: keys_add_ingredients)
next
  case (Some p)
  then show ?thesis
    using upgrade_single [of items item_id item cost qty, OF assms]
    by (simp add: keys_add_ingredients keys_add_req del: add_req.simps)
qed

lemma qty_of_requirements_insert:
  "qty_of (get_direct_requirements items (before @ e # after)) k =
     qty_of (get_direct_requirements items (before @ after)) k +
     qty_of (get_direct_requirements items [e]) k"
proof -
  have "qty_of (get_direct_requirements items (before @ ([e] @ after))) k =
      qty_of (get_direct_requirements items before) k +
      (qty_of (get_direct_requirements items [e]) k +
       qty_of (get_direct_requirements items after) k)"
    by (simp only: qty_of_requirements_append)
  moreover have "qty_of (get_direct_requirements items (before @ after)) k =
      qty_of (get_direct_requirements items before) k +
      qty_of (get_direct_requirements items after) k"
    by (simp only: qty_of_requirements_append)
  ultimately show ?thesis by simp
qed

lemma keys_requirements_insert:
  "fst ` set (get_direct_requirements items (before @ e # after)) =
     fst ` set (get_direct_requirements items (before @ after)) \<union>
     fst ` set (get_direct_requirements items [e])"
proof -
  have "fst ` set (get_direct_requirements items (before @ ([e] @ after))) =
      fst ` set (get_direct_requirements items before) \<union>
      (fst ` set (get_direct_requirements items [e]) \<union>
       fst ` set (get_direct_requirements items after))"
    by (simp only: keys_requirements_append)
  moreover have "fst ` set (get_direct_requirements items (before @ after)) =
      fst ` set (get_direct_requirements items before) \<union>
      fst ` set (get_direct_requirements items after)"
    by (simp only: keys_requirements_append)
  ultimately show ?thesis by auto
qed

text \<open>
  \<^bold>\<open>C1.\<close> A selected pair \<open>(item_id, qty)\<close> whose item has a non-empty upgrade
  cost adds, to what the rest of the selection requires, \<open>per_unit * qty\<close> under every
  ingredient of the upgrade cost and \<open>qty\<close> under the previous-tier identifier when
  there is one; it adds no other key; and the item's recipe plays no part: the result is
  the same whatever the \<^verbatim>\<open>recipe\<close> field holds.
\<close>

theorem upgrade_cost_expansion:
  assumes "items item_id = Some item" "upgradeCost item = Some cost" "cost \<noteq> []"
    "distinct (map fst cost)"
  shows "(\<forall>k. qty_of (get_direct_requirements items (before @ (item_id, qty) # after)) k =
              qty_of (get_direct_requirements items (before @ after)) k
              + qty_of cost k * qty
              + (if get_previous_upgrade_level item_id = Some k then qty else 0)) \<and>
         fst ` set (get_direct_requirements items (before @ (item_id, qty) # after)) =
           fst ` set (get_direct_requirements items (before @ after))
           \<union> fst ` set cost \<union> set_option (get_previous_upgrade_level item_id) \<and>
         get_direct_requirements (items(item_id \<mapsto> item\<lparr>recipe := r\<rparr>))
             (before @ (item_id, qty) # after) =
           get_direct_requirements items (before @ (item_id, qty) # after)"
proof -
  have t: "truthy (upgradeCost item)"
    using assms(2,3) by (simp add: truthy_def)
  have "\<And>k. qty_of (get_direct_requirements items (before @ (item_id, qty) # after)) k =
              qty_of (get_direct_requirements items (before @ after)) k
              + qty_of cost k * qty
              + (if get_previous_upgrade_level item_id = Some k then qty else 0)"
    unfolding qty_of_requirements_insert
    by (simp only: upgrade_single_qty [of items item_id item cost, OF assms] add.assoc)
  moreover have "fst ` set (get_direct_requirements items (before @ (item_id, qty) # after)) =
           fst ` set (get_direct_requirements items (before @ after))
           \<union> fst ` set cost \<union> set_option (get_previous_upgrade_level item_id)"
    unfolding keys_requirements_insert
    by (simp only: upgrade_single_keys [of items item_id item cost, OF assms(1-3)] Un_assoc)
  moreover have "get_direct_requirements (items(item_id \<mapsto> item\<lparr>recipe := r\<rparr>))
             (before @ (item_id, qty) # after) =
           get_direct_requirements items (before @ (item_id, qty) # after)"
    unfolding get_direct_requirements_def
    by (rule loop_recipe_irrelevant [of items item_id item, OF assms(1) t])
  ultimately show ?thesis by blast
qed

text \<open>The spec's example: two \<^verbatim>\<open>weapon_iii\<close> with upgrade cost
  \<^verbatim>\<open>{mat_a: 3, mat_b: 1}\<close> (and a recipe that is ignored).\<close>

theorem upgrade_cost_expansion_witness:
  "qty_of (get_direct_requirements weapon_catalog [(''weapon_iii'', 2)]) ''mat_a'' = 6 \<and>
   qty_of (get_direct_requirements weapon_catalog [(''weapon_iii'', 2)]) ''mat_b'' = 2 \<and>
   qty_of (get_direct_requirements weapon_catalog [(''weapon_iii'', 2)]) ''weapon_ii'' = 2 \<and>
   qty_of (get_direct_requirements weapon_catalog [(''weapon_iii'', 2)]) ''scrap'' = 0 \<and>
   fst ` set (get_direct_requirements weapon_catalog [(''weapon_iii'', 2)]) =
     {''mat_a'', ''mat_b'', ''weapon_ii''} \<and>
   get_direct_requirements weapon_catalog [(''weapon_iii'', 2)] =
     [(''mat_a'', 6), (''mat_b'', 2), (''weapon_ii'', 2)]"
proof -
  let ?item = "empty_item\<lparr>recipe := Some [(''scrap'', 5)],
                   upgradeCost := Some [(''mat_a'', 3), (''mat_b'', 1)]\<rparr>"
  have h1: "weapon_catalog ''weapon_iii'' = Some ?item"
    by (simp add: weapon_catalog_def)
  have h2: "upgradeCost ?item = Some [(''mat_a'', 3), (''mat_b'', 1)]"
    by simp
  have h3: "[(''mat_a'', 3::int), (''mat_b'', 1)] \<noteq> []"
    by simp
  have h4: "distinct (map fst [(''mat_a'', 3::int), (''mat_b'', 1)])"
    by simp
  have p: "get_previous_upgrade_level ''weapon_iii'' = Some ''weapon_ii''"
    using previous_iii [of "''weapon''"] by simp
  have "get_direct_requirements weapon_catalog [(''weapon_iii'', 2)] =
     [(''mat_a'', 6), (''mat_b'', 2), (''weapon_ii'', 2)]"
    by (simp add: weapon_catalog_def eval_defs)
  then show ?thesis
    using upgrade_cost_expansion [of weapon_catalog "''weapon_iii''" ?item
        "[(''mat_a'', 3), (''mat_b'', 1)]" "[]" 2 "[]" None, OF h1 h2 h3 h4]
    by (simp add: p qty_of_Cons qty_of_Nil)
qed

subsection \<open>Expansion by recipe, and additivity\<close>

lemma recipe_single:
  assumes "items item_id = Some item" "\<not> truthy (upgradeCost item)"
    "recipe item = Some rc" "rc \<noteq> []" "distinct (map fst rc)"
  shows "get_direct_requirements items [(item_id, n)] =
           map (\<lambda>(ingredient, per_unit). (ingredient, per_unit * n)) rc"
  unfolding requirements_single
  by (simp only: step_recipe [of items item_id item rc, OF assms(1-4)]
        add_ingredients_scaled [OF assms(5)])

lemma single_other_entry:
  "other \<noteq> item_id \<Longrightarrow>
   get_direct_requirements (items(other := entry)) [(item_id, n)] =
   get_direct_requirements items [(item_id, n)]"
  by (simp add: get_direct_requirements_def requirements_step_def)

text \<open>
  \<^bold>\<open>C2.\<close> For an item with a non-empty recipe and no non-empty upgrade cost,
  selecting \<open>n\<close> of it gives exactly the recipe's entries, each quantity multiplied
  by \<open>n\<close>. The expansion is one level deep: what the catalog holds under any other
  identifier, an ingredient's own recipe included, does not change the result.
\<close>

theorem recipe_expansion_one_level:
  assumes "items item_id = Some item" "\<not> truthy (upgradeCost item)"
    "recipe item = Some rc" "rc \<noteq> []" "distinct (map fst rc)"
  shows "get_direct_requirements items [(item_id, n)] =
           map (\<lambda>(ingredient, per_unit). (ingredient, per_unit * n)) rc \<and>
         (\<forall>other entry. other \<noteq> item_id \<longrightarrow>
            get_direct_requirements (items(other := entry)) [(item_id, n)] =
            get_direct_requirements items [(item_id, n)])"
  using recipe_single [of items item_id item rc n, OF assms] single_other_entry [of _ item_id items]
  by simp

text \<open>The end-to-end scenario: a table gives four planks and nothing else, and four
  planks then give eight wood.\<close>

theorem recipe_expansion_one_level_witness:
  "get_direct_requirements wood_catalog [(''table'', 1)] = [(''plank'', 4)] \<and>
   get_direct_requirements wood_catalog [(''plank'', 4)] = [(''wood'', 8)]"
proof -
  let ?table = "empty_item\<lparr>recipe := Some [(''plank'', 4)]\<rparr>"
  let ?plank = "empty_item\<lparr>recipe := Some [(''wood'', 2)]\<rparr>"
  have t: "wood_catalog ''table'' = Some ?table" "\<not> truthy (upgradeCost ?table)"
      "recipe ?table = Some [(''plank'', 4)]" "[(''plank'', 4::int)] \<noteq> []"
      "distinct (map fst [(''plank'', 4::int)])"
    by (simp_all add: wood_catalog_def empty_item_def truthy_def)
  have p: "wood_catalog ''plank'' = Some ?plank" "\<not> truthy (upgradeCost ?plank)"
      "recipe ?plank = Some [(''wood'', 2)]" "[(''wood'', 2::int)] \<noteq> []"
      "distinct (map fst [(''wood'', 2::int)])"
    by (simp_all add: wood_catalog_def empty_item_def truthy_def)
  show ?thesis
    using recipe_expansion_one_level [of wood_catalog "''table''" ?table "[(''plank'', 4)]" 1, OF t]
      recipe_expansion_one_level [of wood_catalog "''plank''" ?plank "[(''wood'', 2)]" 4, OF p]
    by simp
qed

text \<open>
  \<^bold>\<open>C3.\<close> Accumulation is additive across the entries of the selection: the quantity
  required of any \<open>x\<close> by a selection in two parts is the sum of what the parts
  require, the keys are those of the parts, and every key has a single entry. Two items
  that each take two wood give \<^verbatim>\<open>wood: 4\<close>.
\<close>

theorem accumulation_is_additive:
  "qty_of (get_direct_requirements items (sel1 @ sel2)) x =
     qty_of (get_direct_requirements items sel1) x + qty_of (get_direct_requirements items sel2) x \<and>
   fst ` set (get_direct_requirements items (sel1 @ sel2)) =
     fst ` set (get_direct_requirements items sel1) \<union>
     fst ` set (get_direct_requirements items sel2) \<and>
   distinct (map fst (get_direct_requirements items (sel1 @ sel2))) \<and>
   get_direct_requirements shared_catalog [(''a'', 1), (''b'', 1)] =
     [(''wood'', 4), (''nail'', 1), (''glue'', 3)]"
proof -
  have "get_direct_requirements shared_catalog [(''a'', 1), (''b'', 1)] =
     [(''wood'', 4), (''nail'', 1), (''glue'', 3)]"
    by (simp add: shared_catalog_def eval_defs)
  then show ?thesis
    using qty_of_requirements_append [of items sel1 sel2 x]
      keys_requirements_append [of items sel1 sel2]
      distinct_requirements [of items "sel1 @ sel2"]
    by simp
qed

subsection \<open>The display record\<close>

text \<open>
  \<^bold>\<open>C8.\<close> The display name is the \<^verbatim>\<open>en\<close> entry of a name stored as a dict, or
  the identifier when the dict has no \<^verbatim>\<open>en\<close> entry; the string itself for a name
  stored as a string; and the identifier when the item has no name or is unknown.
\<close>

theorem display_name_resolution:
  "(items item_id = Some item \<and> name item = Some (NameDict d) \<and> map_of d ''en'' = Some n \<longrightarrow>
      info_name (get_item_info items item_id) = n) \<and>
   (items item_id = Some item \<and> name item = Some (NameDict d) \<and> map_of d ''en'' = None \<longrightarrow>
      info_name (get_item_info items item_id) = item_id) \<and>
   (items item_id = Some item \<and> name item = Some (NameStr s) \<longrightarrow>
      info_name (get_item_info items item_id) = s) \<and>
   (items item_id = Some item \<and> name item = None \<longrightarrow>
      info_name (get_item_info items item_id) = item_id) \<and>
   (items item_id = None \<longrightarrow> info_name (get_item_info items item_id) = item_id)"
  by (simp add: get_item_info_def display_name_def empty_item_def Let_def)

theorem display_name_resolution_witness:
  "info_name (get_item_info display_catalog ''rifle'') = ''Rifle'' \<and>
   info_name (get_item_info display_catalog ''scope_ii'') = ''scope_ii'' \<and>
   info_name (get_item_info display_catalog ''rifle_ii'') = ''Rifle'' \<and>
   info_name (get_item_info display_catalog ''plank'') = ''plank'' \<and>
   info_name (get_item_info display_catalog ''unobtainium'') = ''unobtainium''"
proof -
  let ?rifle = "empty_item\<lparr>name := Some (NameDict [(''en'', ''Rifle''), (''fr'', ''Fusil'')]),
                               type := Some ''Weapon'',
                               imageFilename := Some ''rifle_art.png''\<rparr>"
  let ?rifle_ii = "empty_item\<lparr>name := Some (NameStr ''Rifle''),
                                  type := Some ''Weapon'',
                                  imageFilename := Some ''''\<rparr>"
  let ?scope = "empty_item\<lparr>name := Some (NameDict [(''fr'', ''Lunette'')]),
                                  type := Some ''Modification''\<rparr>"
  have c: "display_catalog ''rifle'' = Some ?rifle" "display_catalog ''rifle_ii'' = Some ?rifle_ii"
    "display_catalog ''scope_ii'' = Some ?scope" "display_catalog ''plank'' = Some empty_item"
    "display_catalog ''unobtainium'' = None"
    by (simp_all add: display_catalog_def)
  show ?thesis
    using
      display_name_resolution [of display_catalog "''rifle''" ?rifle
        "[(''en'', ''Rifle''), (''fr'', ''Fusil'')]" "''Rifle''" "''''"]
      display_name_resolution [of display_catalog "''scope_ii''" ?scope
        "[(''fr'', ''Lunette'')]" "''''" "''''"]
      display_name_resolution [of display_catalog "''rifle_ii''" ?rifle_ii "[]" "''''" "''Rifle''"]
      display_name_resolution [of display_catalog "''plank''" empty_item "[]" "''''" "''''"]
      display_name_resolution [of display_catalog "''unobtainium''" empty_item "[]" "''''" "''''"]
    by (simp add: c) (simp add: empty_item_def)
qed

lemma item_type_Modification:
  "item_type item \<noteq> ''Modification'' \<longleftrightarrow> type item \<noteq> Some ''Modification''"
  by (simp add: item_type_def split: option.splits)

lemma info_image_eq:
  "info_image (get_item_info items item_id) =
     image_path (case items item_id of None \<Rightarrow> empty_item | Some it \<Rightarrow> it)
       (get_weapon_upgrade_info item_id
          (type (case items item_id of None \<Rightarrow> empty_item | Some it \<Rightarrow> it) \<noteq> Some ''Modification''))
       item_id"
  by (simp add: get_item_info_def Let_def item_type_Modification)

lemma info_tier:
  assumes "suffix \<in> {''_i'', ''_ii'', ''_iii'', ''_iv''}"
  shows "is_weapon_upgrade (get_weapon_upgrade_info (base @ suffix) True) \<and>
         base_name (get_weapon_upgrade_info (base @ suffix) True) = base"
  using assms info_i [of base] info_ii [of base] info_iii [of base] info_iv [of base]
  by auto

text \<open>
  \<^bold>\<open>C7.\<close> The image path, for \<open>item\<close> the catalog's record or the empty default:
  (a) the item's own \<^verbatim>\<open>imageFilename\<close> when it is set and not empty; else (b) the
  base identifier's \<^verbatim>\<open>.png\<close> when the item is a weapon-upgrade tier, that is, its
  type is not \<^verbatim>\<open>Modification\<close> and its identifier ends in a tier suffix; else
  (c) the identifier's own \<^verbatim>\<open>.png\<close>.
\<close>

theorem image_path_priority:
  assumes "item = (case items item_id of None \<Rightarrow> empty_item | Some it \<Rightarrow> it)"
  shows "(\<forall>f. imageFilename item = Some f \<and> f \<noteq> [] \<longrightarrow>
            info_image (get_item_info items item_id) = ''static/images/'' @ f) \<and>
         (\<forall>base suffix.
            (imageFilename item = None \<or> imageFilename item = Some []) \<and>
            type item \<noteq> Some ''Modification'' \<and>
            item_id = base @ suffix \<and> suffix \<in> {''_i'', ''_ii'', ''_iii'', ''_iv''} \<longrightarrow>
            info_image (get_item_info items item_id) = ''static/images/'' @ base @ ''.png'') \<and>
         ((imageFilename item = None \<or> imageFilename item = Some []) \<and>
          (type item = Some ''Modification'' \<or>
           (\<nexists>base suffix. item_id = base @ suffix \<and> suffix \<in> {''_i'', ''_ii'', ''_iii'', ''_iv''})) \<longrightarrow>
            info_image (get_item_info items item_id) = ''static/images/'' @ item_id @ ''.png'')"
proof -
  have img: "info_image (get_item_info items item_id) =
      image_path item (get_weapon_upgrade_info item_id (type item \<noteq> Some ''Modification'')) item_id"
    unfolding assms by (rule info_image_eq)
  have a: "info_image (get_item_info items item_id) = ''static/images/'' @ f"
    if "imageFilename item = Some f" "f \<noteq> []" for f
    unfolding img using that by (simp add: image_path_def)
  have b: "info_image (get_item_info items item_id) = ''static/images/'' @ base @ ''.png''"
    if "imageFilename item = None \<or> imageFilename item = Some []"
      "type item \<noteq> Some ''Modification''" "item_id = base @ suffix"
      "suffix \<in> {''_i'', ''_ii'', ''_iii'', ''_iv''}" for base suffix
    unfolding img using that(1,2) info_tier [OF that(4), of base]
    by (auto simp: image_path_def that(3))
  have c: "info_image (get_item_info items item_id) = ''static/images/'' @ item_id @ ''.png''"
    if "imageFilename item = None \<or> imageFilename item = Some []"
      "type item = Some ''Modification'' \<or>
       (\<nexists>base suffix. item_id = base @ suffix \<and> suffix \<in> {''_i'', ''_ii'', ''_iii'', ''_iv''})"
  proof -
    have "get_weapon_upgrade_info item_id (type item \<noteq> Some ''Modification'') = NotUpgrade"
    proof (cases "type item = Some ''Modification''")
      case True
      then show ?thesis by (simp add: info_not_weapon)
    next
      case False
      with that(2) show ?thesis by (simp add: info_NotUpgrade_iff)
    qed
    then show ?thesis unfolding img using that(1) by (auto simp: image_path_def)
  qed
  from a b c show ?thesis by blast
qed

text \<open>A weapon \<^verbatim>\<open>rifle_ii\<close> with an empty \<^verbatim>\<open>imageFilename\<close> gets the base
  weapon's \<^verbatim>\<open>rifle.png\<close>.\<close>

theorem image_path_priority_witness:
  "info_image (get_item_info display_catalog ''rifle'') = ''static/images/rifle_art.png'' \<and>
   info_image (get_item_info display_catalog ''rifle_ii'') = ''static/images/rifle.png'' \<and>
   info_image (get_item_info display_catalog ''scope_ii'') = ''static/images/scope_ii.png'' \<and>
   info_image (get_item_info display_catalog ''plank'') = ''static/images/plank.png''"
proof -
  let ?rifle = "empty_item\<lparr>name := Some (NameDict [(''en'', ''Rifle''), (''fr'', ''Fusil'')]),
                               type := Some ''Weapon'',
                               imageFilename := Some ''rifle_art.png''\<rparr>"
  let ?rifle_ii = "empty_item\<lparr>name := Some (NameStr ''Rifle''),
                                  type := Some ''Weapon'',
                                  imageFilename := Some ''''\<rparr>"
  let ?scope = "empty_item\<lparr>name := Some (NameDict [(''fr'', ''Lunette'')]),
                                  type := Some ''Modification''\<rparr>"
  have r: "?rifle = (case display_catalog ''rifle'' of None \<Rightarrow> empty_item | Some it \<Rightarrow> it)"
    by (simp add: display_catalog_def)
  have r2: "?rifle_ii = (case display_catalog ''rifle_ii'' of None \<Rightarrow> empty_item | Some it \<Rightarrow> it)"
    by (simp add: display_catalog_def)
  have s: "?scope = (case display_catalog ''scope_ii'' of None \<Rightarrow> empty_item | Some it \<Rightarrow> it)"
    by (simp add: display_catalog_def)
  have p: "empty_item = (case display_catalog ''plank'' of None \<Rightarrow> empty_item | Some it \<Rightarrow> it)"
    by (simp add: display_catalog_def)
  have np: "\<nexists>base suffix. ''plank'' = base @ suffix \<and> suffix \<in> {''_i'', ''_ii'', ''_iii'', ''_iv''}"
    using info_NotUpgrade_iff [of "''plank''"]
    by (simp add: get_weapon_upgrade_info_def upgrade_levels_def endswith_def)
  have "info_image (get_item_info display_catalog ''rifle'') = ''static/images/rifle_art.png''"
    using image_path_priority [of ?rifle display_catalog "''rifle''", OF r] by simp
  moreover have "info_image (get_item_info display_catalog ''rifle_ii'') = ''static/images/rifle.png''"
    using image_path_priority [of ?rifle_ii display_catalog "''rifle_ii''", OF r2, THEN conjunct2, THEN conjunct1, rule_format, of "''rifle''" "''_ii''"]
    by simp
  moreover have "info_image (get_item_info display_catalog ''scope_ii'') = ''static/images/scope_ii.png''"
    using image_path_priority [of ?scope display_catalog "''scope_ii''", OF s] by (simp add: empty_item_def)
  moreover have "info_image (get_item_info display_catalog ''plank'') = ''static/images/plank.png''"
    using image_path_priority [of empty_item display_catalog "''plank''", OF p, THEN conjunct2, THEN conjunct2] np by (simp add: empty_item_def)
  ultimately show ?thesis by simp
qed

subsection \<open>The endpoint, and the quantity 0\<close>

lemma expand_item_supplied:
  "item_id \<noteq> [] \<Longrightarrow>
   expand_item items \<lparr>req_item_id = Some item_id, req_quantity = q\<rparr> =
     Ok200 (map (requirement_line items)
       (sort_key (\<lambda>x. info_name (get_item_info items (fst x)))
          (get_direct_requirements items
             [(item_id, case q of None \<Rightarrow> 1 | Some n \<Rightarrow> n)])))"
  by (simp add: expand_item_def Let_def)

lemma requirement_line_entry:
  "(info_id (requirement_line items req), quantity (requirement_line items req)) = req"
  by (cases req) (simp add: requirement_line_def get_item_info_def Let_def
      item_info.defs line.defs)

text \<open>
  \<^bold>\<open>C9.\<close> \<^verbatim>\<open>expand_item\<close> answers a body without an \<^verbatim>\<open>item_id\<close> with the
  error response of status 400, and so it does for the empty string, which
  \<^verbatim>\<open>not item_id\<close> takes for a missing one. An identifier that is supplied is never
  an error, and one the catalog does not have gives the empty array. The two kinds of
  response are different values.
\<close>

theorem missing_item_id_is_client_error:
  "expand_item items \<lparr>req_item_id = None, req_quantity = q\<rparr> = Error400 ''item_id required'' \<and>
   expand_item items \<lparr>req_item_id = Some [], req_quantity = q\<rparr> = Error400 ''item_id required'' \<and>
   (item_id \<noteq> [] \<longrightarrow>
      (\<exists>lines. expand_item items \<lparr>req_item_id = Some item_id, req_quantity = q\<rparr> = Ok200 lines)) \<and>
   (item_id \<noteq> [] \<and> items item_id = None \<longrightarrow>
      expand_item items \<lparr>req_item_id = Some item_id, req_quantity = q\<rparr> = Ok200 []) \<and>
   (\<forall>msg lines. Error400 msg \<noteq> Ok200 lines)"
proof -
  have "expand_item items \<lparr>req_item_id = Some item_id, req_quantity = q\<rparr> = Ok200 []"
    if "item_id \<noteq> []" "items item_id = None"
    using that by (simp add: expand_item_supplied requirements_single step_unknown)
  then show ?thesis
    using expand_item_supplied [of item_id items q]
    by (simp add: expand_item_def)
qed

theorem missing_item_id_is_client_error_witness:
  "expand_item wood_catalog \<lparr>req_item_id = None, req_quantity = Some 2\<rparr> =
     Error400 ''item_id required'' \<and>
   expand_item wood_catalog \<lparr>req_item_id = Some ''unobtainium'', req_quantity = Some 2\<rparr> =
     Ok200 []"
proof -
  have "wood_catalog ''unobtainium'' = None"
    by (simp add: wood_catalog_def)
  then show ?thesis
    using missing_item_id_is_client_error [of wood_catalog "Some 2" "''unobtainium''"]
    by simp
qed

lemma add_req_zero:
  "\<forall>p\<in>set reqs. snd p = 0 \<Longrightarrow> \<forall>p\<in>set (add_req k 0 reqs). snd p = 0"
proof (induction reqs)
  case Nil
  show ?case by simp
next
  case (Cons e reqs)
  obtain i n where e: "e = (i, n)" by (cases e)
  from Cons.prems have n: "n = 0" and rest: "\<forall>p\<in>set reqs. snd p = 0"
    unfolding e by simp_all
  show ?case using Cons.IH [OF rest] rest unfolding e n by (cases "i = k") simp_all
qed

lemma add_ingredients_zero:
  "\<forall>p\<in>set reqs. snd p = 0 \<Longrightarrow> \<forall>p\<in>set (add_ingredients c 0 reqs). snd p = 0"
proof (induction c arbitrary: reqs)
  case Nil
  then show ?case by simp
next
  case (Cons e c)
  obtain i n where e: "e = (i, n)" by (cases e)
  have "\<forall>p\<in>set (add_req i 0 reqs). snd p = 0"
    using Cons.prems by (rule add_req_zero)
  then show ?case unfolding e by (simp add: Cons.IH del: add_req.simps)
qed

lemma values_zero:
  assumes "fst ` set R \<noteq> {}" "\<forall>p\<in>set R. snd p = (0::int)"
  shows "snd ` set R = {0}"
proof -
  from assms(1) have "R \<noteq> []" by auto
  then obtain p rest where "R = p # rest" by (cases R) auto
  then have p: "p \<in> set R" by simp
  with assms(2) have "snd p = 0" by simp
  with p have "0 \<in> snd ` set R" by (metis imageI)
  moreover from assms(2) have "snd ` set R \<subseteq> {0}" by auto
  ultimately show ?thesis by auto
qed

lemma upgrade_zero:
  assumes "items item_id = Some item" "upgradeCost item = Some cost" "cost \<noteq> []"
  shows "fst ` set (get_direct_requirements items [(item_id, 0)]) =
           fst ` set cost \<union> set_option (get_previous_upgrade_level item_id) \<and>
         snd ` set (get_direct_requirements items [(item_id, 0)]) = {0}"
proof -
  let ?R = "get_direct_requirements items [(item_id, 0)]"
  have k: "fst ` set ?R = fst ` set cost \<union> set_option (get_previous_upgrade_level item_id)"
    by (rule upgrade_single_keys [of items item_id item cost, OF assms])
  have base: "\<forall>p\<in>set (add_ingredients cost 0 []). snd p = 0"
    by (rule add_ingredients_zero) simp
  have "\<forall>p\<in>set ?R. snd p = 0"
    unfolding upgrade_single [of items item_id item cost 0, OF assms]
    using base add_req_zero [OF base]
    by (cases "get_previous_upgrade_level item_id") (simp_all del: add_req.simps)
  moreover have "fst ` set ?R \<noteq> {}"
    unfolding k using assms(3) by simp
  ultimately show ?thesis using k values_zero [of ?R] by simp
qed

lemma recipe_zero:
  assumes "items item_id = Some item" "\<not> truthy (upgradeCost item)"
    "recipe item = Some rc" "rc \<noteq> []"
  shows "fst ` set (get_direct_requirements items [(item_id, 0)]) = fst ` set rc \<and>
         snd ` set (get_direct_requirements items [(item_id, 0)]) = {0}"
proof -
  let ?R = "get_direct_requirements items [(item_id, 0)]"
  have R: "?R = add_ingredients rc 0 []"
    unfolding requirements_single
    by (rule step_recipe [of items item_id item rc, OF assms])
  have k: "fst ` set ?R = fst ` set rc"
    unfolding R by (simp add: keys_add_ingredients)
  have "\<forall>p\<in>set ?R. snd p = 0"
    unfolding R by (rule add_ingredients_zero) simp
  moreover have "fst ` set ?R \<noteq> {}"
    unfolding k using assms(4) by simp
  ultimately show ?thesis using k values_zero [of ?R] by simp
qed

lemma expand_item_lines:
  assumes "item_id \<noteq> []"
  shows "\<exists>lines. expand_item items \<lparr>req_item_id = Some item_id, req_quantity = Some n\<rparr> = Ok200 lines \<and>
           (\<lambda>l. (info_id l, quantity l)) ` set lines = set (get_direct_requirements items [(item_id, n)])"
proof -
  let ?R = "get_direct_requirements items [(item_id, n)]"
  let ?lines = "map (requirement_line items)
       (sort_key (\<lambda>x. info_name (get_item_info items (fst x))) ?R)"
  have "expand_item items \<lparr>req_item_id = Some item_id, req_quantity = Some n\<rparr> = Ok200 ?lines"
    using expand_item_supplied [OF assms, of items "Some n"] by simp
  moreover have "(\<lambda>l. (info_id l, quantity l)) ` set ?lines = set ?R"
    by (simp add: image_image requirement_line_entry)
  ultimately show ?thesis by blast
qed

text \<open>
  \<^bold>\<open>C10.\<close> With quantity 0, an item with a non-empty upgrade cost gives an entry for
  each ingredient of the cost and for the previous-tier identifier, and an item expanded
  by its recipe gives an entry for each ingredient of the recipe; every entry holds 0.
  The endpoint \<^verbatim>\<open>expand_item\<close> accepts the quantity 0 and returns one line for each
  of these entries, with that quantity.
\<close>

theorem zero_quantity_entries:
  assumes "items item_id = Some item"
  shows "(upgradeCost item = Some cost \<and> cost \<noteq> [] \<longrightarrow>
            fst ` set (get_direct_requirements items [(item_id, 0)]) =
              fst ` set cost \<union> set_option (get_previous_upgrade_level item_id) \<and>
            snd ` set (get_direct_requirements items [(item_id, 0)]) = {0}) \<and>
         (\<not> truthy (upgradeCost item) \<and> recipe item = Some rc \<and> rc \<noteq> [] \<longrightarrow>
            fst ` set (get_direct_requirements items [(item_id, 0)]) = fst ` set rc \<and>
            snd ` set (get_direct_requirements items [(item_id, 0)]) = {0}) \<and>
         (item_id \<noteq> [] \<longrightarrow>
            (\<exists>lines.
               expand_item items \<lparr>req_item_id = Some item_id, req_quantity = Some 0\<rparr> = Ok200 lines \<and>
               (\<lambda>l. (info_id l, quantity l)) ` set lines =
                 set (get_direct_requirements items [(item_id, 0)])))"
proof -
  have 1: "upgradeCost item = Some cost \<and> cost \<noteq> [] \<longrightarrow>
            fst ` set (get_direct_requirements items [(item_id, 0)]) =
              fst ` set cost \<union> set_option (get_previous_upgrade_level item_id) \<and>
            snd ` set (get_direct_requirements items [(item_id, 0)]) = {0}"
    using upgrade_zero [of items item_id item cost, OF assms] by simp
  have 2: "\<not> truthy (upgradeCost item) \<and> recipe item = Some rc \<and> rc \<noteq> [] \<longrightarrow>
            fst ` set (get_direct_requirements items [(item_id, 0)]) = fst ` set rc \<and>
            snd ` set (get_direct_requirements items [(item_id, 0)]) = {0}"
    using recipe_zero [of items item_id item rc, OF assms] by simp
  have 3: "item_id \<noteq> [] \<longrightarrow>
            (\<exists>lines.
               expand_item items \<lparr>req_item_id = Some item_id, req_quantity = Some 0\<rparr> = Ok200 lines \<and>
               (\<lambda>l. (info_id l, quantity l)) ` set lines =
                 set (get_direct_requirements items [(item_id, 0)]))"
    using expand_item_lines [of item_id items 0] by (rule impI)
  from 1 2 3 show ?thesis by (intro conjI)
qed

theorem zero_quantity_entries_witness:
  "fst ` set (get_direct_requirements weapon_catalog [(''weapon_iii'', 0)]) =
     {''mat_a'', ''mat_b'', ''weapon_ii''} \<and>
   snd ` set (get_direct_requirements weapon_catalog [(''weapon_iii'', 0)]) = {0} \<and>
   fst ` set (get_direct_requirements wood_catalog [(''table'', 0)]) = {''plank''} \<and>
   snd ` set (get_direct_requirements wood_catalog [(''table'', 0)]) = {0} \<and>
   (\<exists>lines.
      expand_item weapon_catalog \<lparr>req_item_id = Some ''weapon_iii'', req_quantity = Some 0\<rparr> =
        Ok200 lines \<and>
      (\<lambda>l. (info_id l, quantity l)) ` set lines =
        {(''mat_a'', 0), (''mat_b'', 0), (''weapon_ii'', 0)})"
proof -
  let ?weapon = "empty_item\<lparr>recipe := Some [(''scrap'', 5)],
                   upgradeCost := Some [(''mat_a'', 3), (''mat_b'', 1)]\<rparr>"
  let ?table = "empty_item\<lparr>recipe := Some [(''plank'', 4)]\<rparr>"
  have w: "weapon_catalog ''weapon_iii'' = Some ?weapon"
    by (simp add: weapon_catalog_def)
  have t: "wood_catalog ''table'' = Some ?table"
    by (simp add: wood_catalog_def)
  have p: "get_previous_upgrade_level ''weapon_iii'' = Some ''weapon_ii''"
    using previous_iii [of "''weapon''"] by simp
  have R: "get_direct_requirements weapon_catalog [(''weapon_iii'', 0)] =
      [(''mat_a'', 0), (''mat_b'', 0), (''weapon_ii'', 0)]"
    by (simp add: weapon_catalog_def eval_defs)
  have "fst ` set (get_direct_requirements weapon_catalog [(''weapon_iii'', 0)]) =
     {''mat_a'', ''mat_b'', ''weapon_ii''} \<and>
   snd ` set (get_direct_requirements weapon_catalog [(''weapon_iii'', 0)]) = {0}"
    using zero_quantity_entries [of weapon_catalog "''weapon_iii''" ?weapon
        "[(''mat_a'', 3), (''mat_b'', 1)]" "[]", OF w, THEN conjunct1]
    by (auto simp: p)
  moreover have "fst ` set (get_direct_requirements wood_catalog [(''table'', 0)]) = {''plank''} \<and>
   snd ` set (get_direct_requirements wood_catalog [(''table'', 0)]) = {0}"
    using zero_quantity_entries [of wood_catalog "''table''" ?table
        "[]" "[(''plank'', 4)]", OF t, THEN conjunct2, THEN conjunct1]
    by (simp add: empty_item_def truthy_def)
  moreover have "\<exists>lines.
      expand_item weapon_catalog \<lparr>req_item_id = Some ''weapon_iii'', req_quantity = Some 0\<rparr> =
        Ok200 lines \<and>
      (\<lambda>l. (info_id l, quantity l)) ` set lines =
        {(''mat_a'', 0), (''mat_b'', 0), (''weapon_ii'', 0)}"
    using zero_quantity_entries [of weapon_catalog "''weapon_iii''" ?weapon
        "[]" "[]", OF w, THEN conjunct2, THEN conjunct2]
    unfolding R by simp
  ultimately show ?thesis by simp
qed

end
